theory Spec2Isabelle
  imports Complex_Main "HOL-Library.AList"
begin

section \<open>Numbers of the host language\<close>

text \<open>
  The analysis engine (\<^verbatim>\<open>dataUtils.ts\<close>) computes with JavaScript numbers. A number is
  modelled as not-a-number, one of the two infinities, or a finite value. Finite values are
  real numbers: arithmetic on them is exact, so rounding, overflow to infinity and the
  negative zero of binary floating point are outside this model. The rules for the
  non-finite values are those of the language.
\<close>

datatype jsnum = NaN | PInf | NInf | Fin real

fun isNaN :: "jsnum \<Rightarrow> bool" where
  "isNaN NaN = True"
| "isNaN _ = False"

fun isFinite :: "jsnum \<Rightarrow> bool" where
  "isFinite (Fin _) = True"
| "isFinite _ = False"

fun num_neg :: "jsnum \<Rightarrow> jsnum" where
  "num_neg NaN = NaN"
| "num_neg PInf = NInf"
| "num_neg NInf = PInf"
| "num_neg (Fin a) = Fin (- a)"

fun num_add :: "jsnum \<Rightarrow> jsnum \<Rightarrow> jsnum" where
  "num_add (Fin a) (Fin b) = Fin (a + b)"
| "num_add NaN _ = NaN"
| "num_add _ NaN = NaN"
| "num_add PInf NInf = NaN"
| "num_add NInf PInf = NaN"
| "num_add PInf _ = PInf"
| "num_add _ PInf = PInf"
| "num_add NInf _ = NInf"
| "num_add _ NInf = NInf"

definition num_sub :: "jsnum \<Rightarrow> jsnum \<Rightarrow> jsnum" where
  "num_sub a b = num_add a (num_neg b)"

fun num_sign :: "jsnum \<Rightarrow> real" where
  "num_sign NaN = 0"
| "num_sign PInf = 1"
| "num_sign NInf = - 1"
| "num_sign (Fin a) = sgn a"

fun num_mul :: "jsnum \<Rightarrow> jsnum \<Rightarrow> jsnum" where
  "num_mul (Fin a) (Fin b) = Fin (a * b)"
| "num_mul NaN _ = NaN"
| "num_mul _ NaN = NaN"
| "num_mul a b =
     (if num_sign a * num_sign b = 0 then NaN
      else if 0 < num_sign a * num_sign b then PInf else NInf)"

fun num_div :: "jsnum \<Rightarrow> jsnum \<Rightarrow> jsnum" where
  "num_div (Fin a) (Fin b) =
     (if b \<noteq> 0 then Fin (a / b)
      else if a = 0 then NaN else if 0 < a then PInf else NInf)"
| "num_div NaN _ = NaN"
| "num_div _ NaN = NaN"
| "num_div (Fin a) _ = Fin 0"
| "num_div PInf (Fin b) = (if 0 \<le> b then PInf else NInf)"
| "num_div NInf (Fin b) = (if 0 \<le> b then NInf else PInf)"
| "num_div _ _ = NaN"

fun num_lt :: "jsnum \<Rightarrow> jsnum \<Rightarrow> bool" where
  "num_lt (Fin a) (Fin b) = (a < b)"
| "num_lt NaN _ = False"
| "num_lt _ NaN = False"
| "num_lt PInf _ = False"
| "num_lt _ NInf = False"
| "num_lt _ _ = True"

definition num_gt :: "jsnum \<Rightarrow> jsnum \<Rightarrow> bool" where
  "num_gt a b = num_lt b a"

definition num_le :: "jsnum \<Rightarrow> jsnum \<Rightarrow> bool" where
  "num_le a b = (\<not> isNaN a \<and> \<not> isNaN b \<and> \<not> num_lt b a)"

definition num_ge :: "jsnum \<Rightarrow> jsnum \<Rightarrow> bool" where
  "num_ge a b = num_le b a"

text \<open>Strict equality \<^verbatim>\<open>===\<close> on numbers: not-a-number differs from itself.\<close>

definition num_eq :: "jsnum \<Rightarrow> jsnum \<Rightarrow> bool" where
  "num_eq a b = (\<not> isNaN a \<and> a = b)"

fun math_abs :: "jsnum \<Rightarrow> jsnum" where
  "math_abs NaN = NaN"
| "math_abs PInf = PInf"
| "math_abs NInf = PInf"
| "math_abs (Fin a) = Fin \<bar>a\<bar>"

fun math_sqrt :: "jsnum \<Rightarrow> jsnum" where
  "math_sqrt NaN = NaN"
| "math_sqrt PInf = PInf"
| "math_sqrt NInf = NaN"
| "math_sqrt (Fin a) = (if a < 0 then NaN else Fin (sqrt a))"

text \<open>\<^verbatim>\<open>Math.pow(x, 2)\<close>, the only power the engine takes.\<close>

fun math_pow2 :: "jsnum \<Rightarrow> jsnum" where
  "math_pow2 NaN = NaN"
| "math_pow2 PInf = PInf"
| "math_pow2 NInf = PInf"
| "math_pow2 (Fin a) = Fin (a ^ 2)"

text \<open>
  \<^verbatim>\<open>Math.max(...xs)\<close> and \<^verbatim>\<open>Math.min(...xs)\<close>: minus and plus infinity on no arguments,
  not-a-number as soon as one argument is.
\<close>

definition max2 :: "jsnum \<Rightarrow> jsnum \<Rightarrow> jsnum" where
  "max2 a b = (if isNaN a \<or> isNaN b then NaN else if num_lt a b then b else a)"

definition min2 :: "jsnum \<Rightarrow> jsnum \<Rightarrow> jsnum" where
  "min2 a b = (if isNaN a \<or> isNaN b then NaN else if num_lt b a then b else a)"

definition math_max :: "jsnum list \<Rightarrow> jsnum" where
  "math_max xs = foldl max2 NInf xs"

definition math_min :: "jsnum list \<Rightarrow> jsnum" where
  "math_min xs = foldl min2 PInf xs"

text \<open>\<^verbatim>\<open>xs.reduce((sum, v) => sum + v, 0)\<close>.\<close>

definition num_sum :: "jsnum list \<Rightarrow> jsnum" where
  "num_sum xs = foldl num_add (Fin 0) xs"

section \<open>Text of numbers, numbers of text\<close>

definition is_digit :: "char \<Rightarrow> bool" where
  "is_digit c = (c \<in> set ''0123456789'')"

definition digit_val :: "char \<Rightarrow> int" where
  "digit_val c = of_char c - 48"

definition digit_char :: "int \<Rightarrow> char" where
  "digit_char n = char_of (48 + n)"

function digits_of :: "int \<Rightarrow> string" where
  "digits_of n = (if n < 10 then [digit_char n] else digits_of (n div 10) @ [digit_char (n mod 10)])"
  by pat_completeness auto
termination
  by (relation "measure nat") auto

declare digits_of.simps [simp del]

text \<open>White space that \<^verbatim>\<open>Number\<close> strips from both ends of a string (the ASCII part).\<close>

definition is_space :: "char \<Rightarrow> bool" where
  "is_space c = (c \<in> {CHR 0x09, CHR 0x0A, CHR 0x0B, CHR 0x0C, CHR 0x0D, CHR '' ''})"

definition trim :: "string \<Rightarrow> string" where
  "trim s = rev (dropWhile is_space (rev (dropWhile is_space s)))"

definition radix_digit :: "int \<Rightarrow> char \<Rightarrow> int option" where
  "radix_digit b c =
     (let v = (if is_digit c then Some (digit_val c)
               else if c \<in> set ''abcdef'' then Some (of_char c - 87)
               else if c \<in> set ''ABCDEF'' then Some (of_char c - 55)
               else None)
      in case v of None \<Rightarrow> None | Some d \<Rightarrow> if d < b then Some d else None)"

fun radix_val :: "int \<Rightarrow> int \<Rightarrow> string \<Rightarrow> int option" where
  "radix_val b acc [] = Some acc"
| "radix_val b acc (c # cs) =
     (case radix_digit b c of None \<Rightarrow> None | Some d \<Rightarrow> radix_val b (b * acc + d) cs)"

definition digits_val :: "string \<Rightarrow> int" where
  "digits_val s = foldl (\<lambda>n c. 10 * n + digit_val c) 0 s"

text \<open>
  The exponent part of a decimal literal: nothing, or \<^verbatim>\<open>e\<close>/\<^verbatim>\<open>E\<close>, an optional sign and
  at least one digit, up to the end of the string.
\<close>

definition parse_exponent :: "string \<Rightarrow> int option" where
  "parse_exponent s =
     (case s of
        [] \<Rightarrow> Some 0
      | c # r \<Rightarrow>
          if c = CHR ''e'' \<or> c = CHR ''E'' then
            (case r of
               [] \<Rightarrow> None
             | d # r' \<Rightarrow>
                 if d = CHR ''+'' then
                   (if r' \<noteq> [] \<and> list_all is_digit r' then Some (digits_val r') else None)
                 else if d = CHR ''-'' then
                   (if r' \<noteq> [] \<and> list_all is_digit r' then Some (- digits_val r') else None)
                 else if list_all is_digit r then Some (digits_val r) else None)
          else None)"

definition scale10 :: "real \<Rightarrow> int \<Rightarrow> real" where
  "scale10 x e = (if 0 \<le> e then x * 10 ^ nat e else x / 10 ^ nat (- e))"

text \<open>An unsigned decimal literal: \<^verbatim>\<open>12\<close>, \<^verbatim>\<open>12.\<close>, \<^verbatim>\<open>12.5\<close>, \<^verbatim>\<open>.5\<close>, each with an optional exponent.\<close>

definition parse_decimal :: "string \<Rightarrow> real option" where
  "parse_decimal s =
     (let ip = takeWhile is_digit s;
          r1 = dropWhile is_digit s;
          fp = (case r1 of [] \<Rightarrow> [] | c # r \<Rightarrow> if c = CHR ''.'' then takeWhile is_digit r else []);
          r2 = (case r1 of [] \<Rightarrow> [] | c # r \<Rightarrow> if c = CHR ''.'' then dropWhile is_digit r else r1)
      in if ip = [] \<and> fp = [] then None
         else case parse_exponent r2 of
                None \<Rightarrow> None
              | Some e \<Rightarrow>
                  Some (scale10 (of_int (digits_val ip) + of_int (digits_val fp) / 10 ^ length fp) e))"

definition parse_unsigned :: "string \<Rightarrow> jsnum" where
  "parse_unsigned s =
     (if s = ''Infinity'' then PInf
      else case parse_decimal s of None \<Rightarrow> NaN | Some x \<Rightarrow> Fin x)"

definition parse_radix :: "string \<Rightarrow> jsnum option" where
  "parse_radix s =
     (case s of
        z # x # r \<Rightarrow>
          if z = CHR ''0'' \<and> x \<in> set ''xXoObB'' then
            Some (if r = [] then NaN
                  else case radix_val (if x \<in> set ''xX'' then 16 else if x \<in> set ''oO'' then 8 else 2) 0 r of
                         None \<Rightarrow> NaN | Some n \<Rightarrow> Fin (of_int n))
          else None
      | _ \<Rightarrow> None)"

text \<open>\<^verbatim>\<open>Number(s)\<close> for a string \<open>s\<close>.\<close>

definition string_to_number :: "string \<Rightarrow> jsnum" where
  "string_to_number s =
     (let t = trim s in
      if t = [] then Fin 0
      else case parse_radix t of
             Some n \<Rightarrow> n
           | None \<Rightarrow>
               (case t of
                  c # r \<Rightarrow>
                    if c = CHR ''+'' then parse_unsigned r
                    else if c = CHR ''-'' then num_neg (parse_unsigned r)
                    else parse_unsigned t
                | [] \<Rightarrow> Fin 0))"

text \<open>
  \<^verbatim>\<open>String(x)\<close> for a number \<open>x\<close>. The language prints the shortest digit string that reads
  back as the same binary number, at most 17 significant digits. Here the finite value is
  rounded to 17 significant digits and its trailing zeros are dropped: \<open>s\<close> holds the
  digits, \<open>n\<close> the decimal exponent (\<open>10 ^ (n - 1) \<le> x < 10 ^ n\<close>). For every integer below
  \<open>10 ^ 17\<close> this is the decimal numeral.
\<close>

definition dec_exponent :: "real \<Rightarrow> int" where
  "dec_exponent x =
     (if 1 \<le> x then int (length (digits_of \<lfloor>x\<rfloor>))
      else let d = int (length (digits_of \<lfloor>1 / x\<rfloor>))
           in if 1 \<le> scale10 x (d - 1) then 2 - d else 1 - d)"

definition sig_digits :: "real \<Rightarrow> string \<times> int" where
  "sig_digits x =
     (let n = dec_exponent x;
          m = \<lfloor>scale10 x (17 - n) + 1 / 2\<rfloor>;
          ds = (if m = 10 ^ 17 then digits_of (10 ^ 16) else digits_of m);
          n' = (if m = 10 ^ 17 then n + 1 else n)
      in (rev (dropWhile (\<lambda>c. c = CHR ''0'') (rev ds)), n'))"

definition exponent_text :: "int \<Rightarrow> string" where
  "exponent_text e = (if 0 \<le> e then CHR ''+'' # digits_of e else CHR ''-'' # digits_of (- e))"

definition layout :: "string \<Rightarrow> int \<Rightarrow> string" where
  "layout s n =
     (let k = int (length s) in
      if k \<le> n \<and> n \<le> 21 then s @ replicate (nat (n - k)) CHR ''0''
      else if 0 < n \<and> n \<le> 21 then take (nat n) s @ CHR ''.'' # drop (nat n) s
      else if - 6 < n \<and> n \<le> 0 then ''0.'' @ replicate (nat (- n)) CHR ''0'' @ s
      else if k = 1 then s @ CHR ''e'' # exponent_text (n - 1)
      else take 1 s @ CHR ''.'' # drop 1 s @ CHR ''e'' # exponent_text (n - 1))"

definition pos_to_string :: "real \<Rightarrow> string" where
  "pos_to_string x = (case sig_digits x of (s, n) \<Rightarrow> layout s n)"

fun num_to_string :: "jsnum \<Rightarrow> string" where
  "num_to_string NaN = ''NaN''"
| "num_to_string PInf = ''Infinity''"
| "num_to_string NInf = ''-Infinity''"
| "num_to_string (Fin x) =
     (if x = 0 then ''0''
      else if x < 0 then CHR ''-'' # pos_to_string (- x)
      else pos_to_string x)"

text \<open>
  \<^verbatim>\<open>x.toFixed(f)\<close>: the integer \<open>n\<close> with \<open>n / 10 ^ f\<close> nearest to \<open>x\<close> (the larger one on a
  tie), printed with \<open>f\<close> digits after the point; numbers from \<open>10 ^ 21\<close> on print as
  \<^verbatim>\<open>String\<close> prints them.
\<close>

definition fixed_pos :: "nat \<Rightarrow> real \<Rightarrow> string" where
  "fixed_pos f x =
     (if 10 ^ 21 \<le> x then pos_to_string x
      else let ds = digits_of \<lfloor>x * 10 ^ f + 1 / 2\<rfloor>;
               ps = replicate (Suc f - length ds) CHR ''0'' @ ds
           in if f = 0 then ps
              else take (length ps - f) ps @ CHR ''.'' # drop (length ps - f) ps)"

fun toFixed :: "nat \<Rightarrow> jsnum \<Rightarrow> string" where
  "toFixed f NaN = ''NaN''"
| "toFixed f PInf = ''Infinity''"
| "toFixed f NInf = ''-Infinity''"
| "toFixed f (Fin x) = (if x < 0 then CHR ''-'' # fixed_pos f (- x) else fixed_pos f x)"

section \<open>Values, rows and datasets\<close>

text \<open>
  A cell of a row is a scalar of the host language. A row (\<^verbatim>\<open>DataRow\<close>) is an object: the
  list of its own properties in the order \<^verbatim>\<open>Object.keys\<close> lists them, each key once. Reading
  a property the row does not have gives \<^verbatim>\<open>undefined\<close>. Properties inherited from the
  object prototype are outside this model.
\<close>

datatype jsval = JUndefined | JNull | JBool bool | JNum jsnum | JStr string

type_synonym row = "(string \<times> jsval) list"

definition get :: "row \<Rightarrow> string \<Rightarrow> jsval" where
  "get r k = (case map_of r k of None \<Rightarrow> JUndefined | Some v \<Rightarrow> v)"

text \<open>\<^verbatim>\<open>Number(v)\<close> and \<^verbatim>\<open>String(v)\<close>.\<close>

fun Number :: "jsval \<Rightarrow> jsnum" where
  "Number JUndefined = NaN"
| "Number JNull = Fin 0"
| "Number (JBool b) = Fin (if b then 1 else 0)"
| "Number (JNum n) = n"
| "Number (JStr s) = string_to_number s"

fun String :: "jsval \<Rightarrow> string" where
  "String JUndefined = ''undefined''"
| "String JNull = ''null''"
| "String (JBool b) = (if b then ''true'' else ''false'')"
| "String (JNum n) = num_to_string n"
| "String (JStr s) = s"

text \<open>Strict equality \<^verbatim>\<open>===\<close> of two scalars.\<close>

fun strict_eq :: "jsval \<Rightarrow> jsval \<Rightarrow> bool" where
  "strict_eq (JNum a) (JNum b) = num_eq a b"
| "strict_eq a b = (a = b)"

text \<open>
  Truthiness of a scalar, as \<^verbatim>\<open>!data\<close> and \<^verbatim>\<open>maxCategory &&\<close> test it.
\<close>

fun truthy :: "jsval \<Rightarrow> bool" where
  "truthy JUndefined = False"
| "truthy JNull = False"
| "truthy (JBool b) = b"
| "truthy (JNum n) = (n \<noteq> NaN \<and> n \<noteq> Fin 0)"
| "truthy (JStr s) = (s \<noteq> [])"

text \<open>
  Objects built by the engine list their keys as the language orders own properties:
  array indices (canonical decimal numerals below \<open>2 ^ 32 - 1\<close>) ascending, then the other
  keys in the order they were first set. \<open>obj_set\<close> is the assignment \<^verbatim>\<open>o[k] = v\<close>.
\<close>

definition is_array_index :: "string \<Rightarrow> bool" where
  "is_array_index s =
     (s \<noteq> [] \<and> list_all is_digit s \<and> (s = ''0'' \<or> hd s \<noteq> CHR ''0'') \<and>
      digits_val s < 2 ^ 32 - 1)"

fun obj_insert :: "string \<Rightarrow> 'a \<Rightarrow> (string \<times> 'a) list \<Rightarrow> (string \<times> 'a) list" where
  "obj_insert k v [] = [(k, v)]"
| "obj_insert k v ((k', v') # ps) =
     (if is_array_index k \<and> (\<not> is_array_index k' \<or> digits_val k < digits_val k')
      then (k, v) # (k', v') # ps
      else (k', v') # obj_insert k v ps)"

definition obj_set :: "string \<Rightarrow> 'a \<Rightarrow> (string \<times> 'a) list \<Rightarrow> (string \<times> 'a) list" where
  "obj_set k v ps = (if k \<in> fst ` set ps then AList.update k v ps else obj_insert k v ps)"

definition Object_keys :: "(string \<times> 'a) list \<Rightarrow> string list" where
  "Object_keys ps = map fst ps"

definition Object_values :: "(string \<times> 'a) list \<Rightarrow> 'a list" where
  "Object_values ps = map snd ps"

section \<open>Type inference\<close>

text \<open>
  The regular expressions of the engine are built from a digit class, single characters and
  sequencing. \<open>matches r s\<close> lists what is left of \<open>s\<close> after each way of matching \<open>r\<close> at
  its start; \<open>regex_test\<close> is \<^verbatim>\<open>/^r$/.test(s)\<close>.
\<close>

datatype regex = Eps | Digit | Lit char | Seq regex regex

fun matches :: "regex \<Rightarrow> string \<Rightarrow> string list" where
  "matches Eps s = [s]"
| "matches Digit [] = []"
| "matches Digit (c # cs) = (if is_digit c then [cs] else [])"
| "matches (Lit a) [] = []"
| "matches (Lit a) (c # cs) = (if c = a then [cs] else [])"
| "matches (Seq r1 r2) s = concat (map (matches r2) (matches r1 s))"

definition regex_test :: "regex \<Rightarrow> string \<Rightarrow> bool" where
  "regex_test r s = ([] \<in> set (matches r s))"

fun repeat_regex :: "nat \<Rightarrow> regex \<Rightarrow> regex" where
  "repeat_regex 0 r = Eps"
| "repeat_regex (Suc n) r = Seq r (repeat_regex n r)"

text \<open>\<^verbatim>\<open>/^\d{4}-\d{2}-\d{2}$/\<close>\<close>

definition datePattern :: regex where
  "datePattern =
     Seq (repeat_regex 4 Digit)
       (Seq (Lit CHR ''-'')
          (Seq (repeat_regex 2 Digit) (Seq (Lit CHR ''-'') (repeat_regex 2 Digit))))"

datatype coltype = Numeric | Categorical | Date

definition detectColumnType :: "jsval list \<Rightarrow> coltype" where
  "detectColumnType vals =
     (let nonNullValues = filter (\<lambda>v. v \<noteq> JNull \<and> v \<noteq> JUndefined \<and> v \<noteq> JStr '''') vals in
      if length nonNullValues = 0 then Categorical
      else if list_all (\<lambda>v. regex_test datePattern (String v)) nonNullValues then Date
      else if list_all (\<lambda>v. let num = Number v in \<not> isNaN num \<and> isFinite num) nonNullValues
        then Numeric
      else Categorical)"

text \<open>
  The specification of type inference, written from its wording: empty entries are dropped;
  nothing left is categorical; all of the form YYYY-MM-DD is a date; all converting to a
  finite number is numeric; anything else is categorical.
\<close>

definition is_empty_entry :: "jsval \<Rightarrow> bool" where
  "is_empty_entry v = (v = JNull \<or> v = JUndefined \<or> v = JStr '''')"

definition is_iso_date :: "string \<Rightarrow> bool" where
  "is_iso_date s =
     (length s = 10 \<and> list_all is_digit (take 4 s) \<and> s ! 4 = CHR ''-'' \<and>
      list_all is_digit (take 2 (drop 5 s)) \<and> s ! 7 = CHR ''-'' \<and>
      list_all is_digit (drop 8 s))"

definition converts_to_finite :: "jsval \<Rightarrow> bool" where
  "converts_to_finite v = (case Number v of Fin _ \<Rightarrow> True | _ \<Rightarrow> False)"

definition inferType_spec :: "jsval list \<Rightarrow> coltype" where
  "inferType_spec vals =
     (let remaining = filter (\<lambda>v. \<not> is_empty_entry v) vals in
      if remaining = [] then Categorical
      else if list_all (\<lambda>v. is_iso_date (String v)) remaining then Date
      else if list_all converts_to_finite remaining then Numeric
      else Categorical)"

section \<open>Schema analysis\<close>

text \<open>
  \<^verbatim>\<open>ColumnInfo\<close> and the other interfaces of the engine are records; their fields carry a
  prefix, since several interfaces share the field names \<^verbatim>\<open>name\<close> and \<^verbatim>\<open>type\<close>.
\<close>

record ColumnInfo =
  ci_name :: string
  ci_type :: coltype
  ci_values :: "jsval list"

datatype error = TypeError

text \<open>
  What a caller hands to \<^verbatim>\<open>analyzeData\<close>: an array of rows, as the signature asks, or,
  from untyped code, a scalar.
\<close>

datatype arg = Rows "row list" | NonArray jsval

text \<open>\<^verbatim>\<open>[...new Set(values)]\<close>: the distinct values, each at its first occurrence.\<close>

definition new_Set :: "'a list \<Rightarrow> 'a list" where
  "new_Set xs = rev (remdups (rev xs))"

text \<open>
  On a scalar that is not falsy the function throws: a number or a boolean has no first
  element to take keys from, and a string has no \<^verbatim>\<open>map\<close> method.
\<close>

fun analyzeData :: "arg \<Rightarrow> error + ColumnInfo list" where
  "analyzeData (NonArray v) = (if \<not> truthy v then Inr [] else Inl TypeError)"
| "analyzeData (Rows []) = Inr []"
| "analyzeData (Rows (r # rs)) =
     Inr (map (\<lambda>column.
            let vals = map (\<lambda>row. get row column) (r # rs);
                type = detectColumnType vals
            in \<lparr>ci_name = column, ci_type = type, ci_values = take 50 (new_Set vals)\<rparr>)
          (Object_keys r))"

section \<open>Statistics\<close>

definition calculateCorrelation :: "row list \<Rightarrow> string \<Rightarrow> string \<Rightarrow> jsnum" where
  "calculateCorrelation data col1 col2 =
     (let pairs = filter (\<lambda>(x, y). \<not> isNaN x \<and> \<not> isNaN y)
                    (map (\<lambda>row. (Number (get row col1), Number (get row col2))) data)
      in if length pairs < 2 then Fin 0
         else
           let n = Fin (real (length pairs));
               sumX = foldl (\<lambda>sum (x, y). num_add sum x) (Fin 0) pairs;
               sumY = foldl (\<lambda>sum (x, y). num_add sum y) (Fin 0) pairs;
               sumXY = foldl (\<lambda>sum (x, y). num_add sum (num_mul x y)) (Fin 0) pairs;
               sumX2 = foldl (\<lambda>sum (x, y). num_add sum (num_mul x x)) (Fin 0) pairs;
               sumY2 = foldl (\<lambda>sum (x, y). num_add sum (num_mul y y)) (Fin 0) pairs;
               numerator = num_sub (num_mul n sumXY) (num_mul sumX sumY);
               denominator = math_sqrt (num_mul (num_sub (num_mul n sumX2) (num_mul sumX sumX))
                                                (num_sub (num_mul n sumY2) (num_mul sumY sumY)))
           in if num_eq denominator (Fin 0) then Fin 0 else num_div numerator denominator)"

definition findOutliers :: "row list \<Rightarrow> string \<Rightarrow> jsnum \<Rightarrow> row list" where
  "findOutliers data column threshold =
     (let vals = filter (\<lambda>v. \<not> isNaN v) (map (\<lambda>row. Number (get row column)) data)
      in if length vals = 0 then []
         else
           let mean = num_div (num_sum vals) (Fin (real (length vals)));
               stdDev = math_sqrt
                          (num_div (foldl (\<lambda>sum v. num_add sum (math_pow2 (num_sub v mean))) (Fin 0) vals)
                                   (Fin (real (length vals))))
           in if num_eq stdDev (Fin 0) then []
              else filter (\<lambda>row.
                     let v = Number (get row column)
                     in if isNaN v then False
                        else num_gt (math_abs (num_div (num_sub v mean) stdDev)) threshold) data)"

section \<open>Insights\<close>

datatype insight_type = Correlation | Outlier | Trend | CategoricalInsight

record DataInsight =
  di_title :: string
  di_description :: string
  di_confidence :: jsnum
  di_type :: insight_type

text \<open>
  \<^verbatim>\<open>xs.sort(cmp)\<close> is stable, and for a comparator that orders its arguments consistently
  it returns them in that order; the model is the stable insertion sort, which moves an
  element behind another only where the comparator is positive.
\<close>

fun insert_by :: "('a \<Rightarrow> 'a \<Rightarrow> jsnum) \<Rightarrow> 'a \<Rightarrow> 'a list \<Rightarrow> 'a list" where
  "insert_by cmp x [] = [x]"
| "insert_by cmp x (y # ys) =
     (if num_gt (cmp x y) (Fin 0) then y # insert_by cmp x ys else x # y # ys)"

definition array_sort :: "('a \<Rightarrow> 'a \<Rightarrow> jsnum) \<Rightarrow> 'a list \<Rightarrow> 'a list" where
  "array_sort cmp xs = foldr (insert_by cmp) xs []"

text \<open>The pairs \<open>(xs[i], xs[j])\<close> with \<open>i < j\<close>, in the order the two nested loops visit them.\<close>

fun index_pairs :: "'a list \<Rightarrow> ('a \<times> 'a) list" where
  "index_pairs [] = []"
| "index_pairs (x # xs) = map (Pair x) xs @ index_pairs xs"

text \<open>
  The three passes of \<^verbatim>\<open>generateInsights\<close>, each as the list of insights it pushes.
  Lengths and counts are natural numbers; a comparison with a share of the row count is a
  comparison of reals.
\<close>

definition correlation_insights :: "row list \<Rightarrow> ColumnInfo list \<Rightarrow> DataInsight list" where
  "correlation_insights data numericColumns =
     concat (map (\<lambda>(c1, c2).
       let col1 = ci_name c1; col2 = ci_name c2;
           correlation = calculateCorrelation data col1 col2;
           sign = (if num_gt correlation (Fin 0) then ''positive'' else ''negative'')
       in if num_gt (math_abs correlation) (Fin 0.5)
          then [\<lparr>di_title = ''Strong '' @ sign @ '' correlation found'',
                 di_description = col1 @ '' and '' @ col2 @ '' show a '' @ sign @
                   '' correlation (r '' @
                   [CHR 0xC3, CHR 0xA2, CHR 0xE2, CHR 0x80, CHR 0xB0, CHR 0xCB, CHR 0x86] @
                   '' '' @ toFixed 2 correlation @ '')'',
                 di_confidence = math_abs correlation,
                 di_type = Correlation\<rparr>]
          else []) (index_pairs numericColumns))"

definition outlier_insights :: "row list \<Rightarrow> ColumnInfo list \<Rightarrow> DataInsight list" where
  "outlier_insights data numericColumns =
     concat (map (\<lambda>col.
       let outliers = findOutliers data (ci_name col) (Fin 3)
       in if length outliers > 0 \<and> real (length outliers) < real (length data) * 0.1
          then [\<lparr>di_title = ''Outliers detected in '' @ ci_name col,
                 di_description = ''Found '' @ digits_of (int (length outliers)) @
                   '' potential outliers in '' @ ci_name col @ '' column'',
                 di_confidence = Fin 0.8,
                 di_type = Outlier\<rparr>]
          else []) numericColumns)"

text \<open>
  The frequency table of the third pass: \<^verbatim>\<open>acc[key] = (acc[key] || 0) + 1\<close> over the
  column's list of distinct values. Every count is at least one, so \<^verbatim>\<open>Math.max\<close> of the
  counts is their greatest element.
\<close>

definition count_values :: "jsval list \<Rightarrow> (string \<times> nat) list" where
  "count_values vals =
     foldl (\<lambda>acc val.
        let key = String val
        in obj_set key ((case map_of acc key of None \<Rightarrow> 0 | Some c \<Rightarrow> c) + 1) acc) [] vals"

definition categorical_insights :: "row list \<Rightarrow> ColumnInfo list \<Rightarrow> DataInsight list" where
  "categorical_insights data categoricalColumns =
     concat (map (\<lambda>col.
       if length (ci_values col) > 1 \<and> length (ci_values col) < 20 then
         let counts = count_values (ci_values col);
             countValues = Object_values counts;
             maxCount = (if length countValues > 0 then Max (set countValues) else 0);
             maxCategory = find (\<lambda>key. map_of counts key = Some maxCount) (Object_keys counts)
         in case maxCategory of
              None \<Rightarrow> []
            | Some category \<Rightarrow>
                if category \<noteq> [] \<and> real maxCount > real (length data) * 0.4
                then [\<lparr>di_title = ''Dominant category in '' @ ci_name col,
                       di_description = category @ '' represents '' @
                         toFixed 1 (num_mul (num_div (Fin (real maxCount)) (Fin (real (length data))))
                                            (Fin 100)) @
                         ''% of all '' @ ci_name col @ '' values'',
                       di_confidence = Fin 0.7,
                       di_type = CategoricalInsight\<rparr>]
                else []
       else []) categoricalColumns)"

definition generateInsights :: "row list \<Rightarrow> error + DataInsight list" where
  "generateInsights data =
     (case analyzeData (Rows data) of
        Inl e \<Rightarrow> Inl e
      | Inr columns \<Rightarrow>
          let numericColumns = filter (\<lambda>col. ci_type col = Numeric) columns;
              categoricalColumns = filter (\<lambda>col. ci_type col = Categorical) columns;
              insights = correlation_insights data numericColumns @
                         outlier_insights data numericColumns @
                         categorical_insights data categoricalColumns
          in Inr (take 5 (array_sort (\<lambda>a b. num_sub (di_confidence b) (di_confidence a)) insights)))"

section \<open>Filters\<close>

datatype operator = Equals | Contains | Greater | Less | Range | OtherOperator

text \<open>The value of a rule is a scalar or, for a range, an array of scalars.\<close>

datatype fvalue = Scalar jsval | Array "jsval list"

record FilterRule =
  fr_column :: string
  fr_operator :: operator
  fr_value :: fvalue
  fr_enabled :: bool

text \<open>
  \<^verbatim>\<open>xs.join(sep)\<close>: \<^verbatim>\<open>null\<close> and \<^verbatim>\<open>undefined\<close> elements give the empty string. An array
  turns into a string by joining with a comma, and into a number through that string.
\<close>

definition join_text :: "jsval \<Rightarrow> string" where
  "join_text v = (if v = JNull \<or> v = JUndefined then [] else String v)"

fun join_strings :: "string \<Rightarrow> string list \<Rightarrow> string" where
  "join_strings sep [] = []"
| "join_strings sep [s] = s"
| "join_strings sep (s # t # ss) = s @ sep @ join_strings sep (t # ss)"

definition array_join :: "string \<Rightarrow> jsval list \<Rightarrow> string" where
  "array_join sep vs = join_strings sep (map join_text vs)"

fun fvalue_String :: "fvalue \<Rightarrow> string" where
  "fvalue_String (Scalar v) = String v"
| "fvalue_String (Array vs) = array_join '','' vs"

fun fvalue_Number :: "fvalue \<Rightarrow> jsnum" where
  "fvalue_Number (Scalar v) = Number v"
| "fvalue_Number (Array vs) = string_to_number (array_join '','' vs)"

text \<open>\<^verbatim>\<open>s.toLowerCase()\<close> on the ASCII letters, and \<^verbatim>\<open>s.includes(t)\<close>.\<close>

definition toLowerCase :: "string \<Rightarrow> string" where
  "toLowerCase s =
     map (\<lambda>c. if c \<in> set ''ABCDEFGHIJKLMNOPQRSTUVWXYZ'' then char_of (of_char c + (32::nat)) else c) s"

fun starts_with :: "string \<Rightarrow> string \<Rightarrow> bool" where
  "starts_with s [] = True"
| "starts_with [] (c # t) = False"
| "starts_with (d # s) (c # t) = (d = c \<and> starts_with s t)"

fun string_includes :: "string \<Rightarrow> string \<Rightarrow> bool" where
  "string_includes [] t = (t = [])"
| "string_includes (c # s) t = (starts_with (c # s) t \<or> string_includes s t)"

text \<open>
  \<^verbatim>\<open>const [min, max] = filter.value\<close>: an array gives its first two elements, a string its
  first two characters, \<^verbatim>\<open>undefined\<close> where there is none; any other scalar is not iterable
  and the destructuring throws.
\<close>

definition element :: "jsval list \<Rightarrow> nat \<Rightarrow> jsval" where
  "element vs i = (if i < length vs then vs ! i else JUndefined)"

fun destructure2 :: "fvalue \<Rightarrow> error + jsval \<times> jsval" where
  "destructure2 (Array vs) = Inr (element vs 0, element vs 1)"
| "destructure2 (Scalar (JStr s)) = Inr (element (map (\<lambda>c. JStr [c]) s) 0, element (map (\<lambda>c. JStr [c]) s) 1)"
| "destructure2 (Scalar v) = Inl TypeError"

definition rule_passes :: "row \<Rightarrow> FilterRule \<Rightarrow> error + bool" where
  "rule_passes row rule =
     (if \<not> fr_enabled rule then Inr True
      else
        let v = get row (fr_column rule) in
        case fr_operator rule of
          Equals \<Rightarrow> Inr (case fr_value rule of Scalar w \<Rightarrow> strict_eq v w | Array ws \<Rightarrow> False)
        | Contains \<Rightarrow> Inr (string_includes (toLowerCase (String v)) (toLowerCase (fvalue_String (fr_value rule))))
        | Greater \<Rightarrow> Inr (num_gt (Number v) (fvalue_Number (fr_value rule)))
        | Less \<Rightarrow> Inr (num_lt (Number v) (fvalue_Number (fr_value rule)))
        | Range \<Rightarrow>
            (case destructure2 (fr_value rule) of
               Inl e \<Rightarrow> Inl e
             | Inr (minv, maxv) \<Rightarrow>
                 Inr (num_ge (Number v) (Number minv) \<and> num_le (Number v) (Number maxv)))
        | OtherOperator \<Rightarrow> Inr True)"

text \<open>
  \<^verbatim>\<open>xs.every(p)\<close> stops at the first element that fails, and \<^verbatim>\<open>xs.filter(p)\<close> keeps the
  elements that pass; an exception thrown by \<open>p\<close> ends either at once.
\<close>

fun every :: "('a \<Rightarrow> error + bool) \<Rightarrow> 'a list \<Rightarrow> error + bool" where
  "every p [] = Inr True"
| "every p (x # xs) =
     (case p x of Inl e \<Rightarrow> Inl e | Inr b \<Rightarrow> if b then every p xs else Inr False)"

fun filter_throwing :: "('a \<Rightarrow> error + bool) \<Rightarrow> 'a list \<Rightarrow> error + 'a list" where
  "filter_throwing p [] = Inr []"
| "filter_throwing p (x # xs) =
     (case p x of
        Inl e \<Rightarrow> Inl e
      | Inr b \<Rightarrow>
          (case filter_throwing p xs of
             Inl e \<Rightarrow> Inl e
           | Inr ys \<Rightarrow> Inr (if b then x # ys else ys)))"

definition applyFilters :: "row list \<Rightarrow> FilterRule list \<Rightarrow> error + row list" where
  "applyFilters data filters = filter_throwing (\<lambda>row. every (rule_passes row) filters) data"

section \<open>Grouping and aggregation\<close>

datatype agg_function = AggSum | AggAvg | AggCount | AggMin | AggMax

record Aggregation =
  ag_column :: string
  ag_function :: agg_function

text \<open>
  The \<^verbatim>\<open>Map\<close> from group key to the rows of the group keeps its keys in the order they
  were first set. \<open>push_group\<close> is the body of the first loop: create the entry if the key
  is new, then append the row.
\<close>

definition group_key :: "string list \<Rightarrow> row \<Rightarrow> string" where
  "group_key groupColumns row = array_join ''|'' (map (\<lambda>col. get row col) groupColumns)"

definition push_group :: "string \<Rightarrow> row \<Rightarrow> (string \<times> row list) list \<Rightarrow> (string \<times> row list) list" where
  "push_group key row groups =
     (let groups' = (if key \<notin> fst ` set groups then groups @ [(key, [])] else groups)
      in map (\<lambda>(k, rs). if k = key then (k, rs @ [row]) else (k, rs)) groups')"

definition group_rows :: "row list \<Rightarrow> string list \<Rightarrow> (string \<times> row list) list" where
  "group_rows data groupColumns =
     foldl (\<lambda>groups row. push_group (group_key groupColumns row) row groups) [] data"

text \<open>\<^verbatim>\<open>s.split(sep)\<close> for a one-character separator.\<close>

fun split_on :: "char \<Rightarrow> string \<Rightarrow> string list" where
  "split_on sep [] = [[]]"
| "split_on sep (c # cs) =
     (if c = sep then [] # split_on sep cs
      else case split_on sep cs of [] \<Rightarrow> [[c]] | p # ps \<Rightarrow> (c # p) # ps)"

definition key_piece :: "string \<Rightarrow> nat \<Rightarrow> jsval" where
  "key_piece key index =
     (let parts = split_on CHR ''|'' key
      in if index < length parts then JStr (parts ! index) else JUndefined)"

definition add_group_columns :: "string \<Rightarrow> string list \<Rightarrow> row" where
  "add_group_columns key groupColumns =
     foldl (\<lambda>result (col, index). obj_set col (key_piece key index) result) []
       (zip groupColumns [0..<length groupColumns])"

definition add_aggregation :: "row list \<Rightarrow> row \<Rightarrow> Aggregation \<Rightarrow> row" where
  "add_aggregation groupData result agg =
     (let vals = filter (\<lambda>v. \<not> isNaN v) (map (\<lambda>row. Number (get row (ag_column agg))) groupData)
      in case ag_function agg of
           AggSum \<Rightarrow> obj_set (ag_column agg @ ''_sum'') (JNum (num_sum vals)) result
         | AggAvg \<Rightarrow>
             obj_set (ag_column agg @ ''_avg'')
               (JNum (if length vals > 0 then num_div (num_sum vals) (Fin (real (length vals))) else Fin 0))
               result
         | AggCount \<Rightarrow> obj_set (ag_column agg @ ''_count'') (JNum (Fin (real (length vals)))) result
         | AggMin \<Rightarrow> obj_set (ag_column agg @ ''_min'') (JNum (math_min vals)) result
         | AggMax \<Rightarrow> obj_set (ag_column agg @ ''_max'') (JNum (math_max vals)) result)"

definition groupAndAggregate :: "row list \<Rightarrow> string list \<Rightarrow> Aggregation list \<Rightarrow> row list" where
  "groupAndAggregate data groupColumns aggregations =
     map (\<lambda>(key, groupData).
            foldl (add_aggregation groupData) (add_group_columns key groupColumns) aggregations)
         (group_rows data groupColumns)"

section \<open>Computed fields\<close>

record ComputedField =
  cf_name :: string
  cf_expression :: string
  cf_type :: coltype

text \<open>
  \<^verbatim>\<open>expression.replace(/\b(\w+)\b/g, f)\<close>: every maximal run of word characters is replaced
  by what \<open>f\<close> returns for it. \<open>replace_words f w s\<close> scans \<open>s\<close> with the run \<open>w\<close> read so
  far.
\<close>

definition is_word_char :: "char \<Rightarrow> bool" where
  "is_word_char c =
     (c \<in> set ''abcdefghijklmnopqrstuvwxyzABCDEFGHIJKLMNOPQRSTUVWXYZ0123456789_'')"

fun replace_words :: "(string \<Rightarrow> string) \<Rightarrow> string \<Rightarrow> string \<Rightarrow> string" where
  "replace_words f w [] = (if w = [] then [] else f w)"
| "replace_words f w (c # cs) =
     (if is_word_char c then replace_words f (w @ [c]) cs
      else (if w = [] then [] else f w) @ c # replace_words f [] cs)"

definition substitute :: "row \<Rightarrow> string \<Rightarrow> string" where
  "substitute row expression =
     replace_words (\<lambda>m. if get row m \<noteq> JUndefined then String (get row m) else m) [] expression"

text \<open>
  \<^verbatim>\<open>eval\<close> belongs to the host. It is a parameter of the model: \<open>ev text\<close> is the value of
  the text, or \<open>None\<close> when evaluating it throws. The text is taken to be an expression
  without side effects. \<open>compute_field\<close> is the \<^verbatim>\<open>try\<close> block together with its \<^verbatim>\<open>catch\<close>:
  substitution and evaluation stand inside the block, and the handler stores \<^verbatim>\<open>null\<close>.
  Nothing outside the block throws, so the function has no error result.
\<close>

definition compute_field :: "(string \<Rightarrow> jsval option) \<Rightarrow> row \<Rightarrow> ComputedField \<Rightarrow> jsval" where
  "compute_field ev row field =
     (case ev (substitute row (cf_expression field)) of None \<Rightarrow> JNull | Some v \<Rightarrow> v)"

definition addComputedFields ::
  "(string \<Rightarrow> jsval option) \<Rightarrow> row list \<Rightarrow> ComputedField list \<Rightarrow> row list" where
  "addComputedFields ev data computedFields =
     map (\<lambda>row. foldl (\<lambda>newRow field. obj_set (cf_name field) (compute_field ev row field) newRow)
                   row computedFields)
         data"

section \<open>Scenario data\<close>

text \<open>The outlier scenario: five rows whose column \<^verbatim>\<open>v\<close> holds 10, 10, 10, 10 and 1000.\<close>

definition outlier_rows :: "row list" where
  "outlier_rows = map (\<lambda>x. [(''v'', JNum (Fin x))]) [10, 10, 10, 10, 1000]"

text \<open>
  The dominant-category scenario: ten rows whose column \<^verbatim>\<open>c\<close> is \<^verbatim>\<open>"X"\<close> in five of them
  and takes six distinct values.
\<close>

definition dominant_rows :: "row list" where
  "dominant_rows =
     map (\<lambda>s. [(''c'', JStr s)]) [''X'', ''X'', ''X'', ''X'', ''X'', ''A'', ''B'', ''C'', ''D'', ''E'']"

text \<open>Two rows and two text columns, no value repeated.\<close>

definition tie_rows :: "row list" where
  "tie_rows = [[(''c'', JStr ''A''), (''d'', JStr ''P'')], [(''c'', JStr ''B''), (''d'', JStr ''Q'')]]"

text \<open>
  Four rows: two numeric columns whose correlation is two thirds, and a column in which the
  boolean \<^verbatim>\<open>true\<close> and the text \<^verbatim>\<open>"true"\<close> are two values with one name.
\<close>

definition ranked_rows :: "row list" where
  "ranked_rows =
     [[(''a'', JNum (Fin 0)), (''b'', JNum (Fin 0)), (''c'', JBool True)],
      [(''a'', JNum (Fin 0)), (''b'', JNum (Fin 1)), (''c'', JStr ''true'')],
      [(''a'', JNum (Fin 2)), (''b'', JNum (Fin 4)), (''c'', JStr ''x'')],
      [(''a'', JNum (Fin 2)), (''b'', JNum (Fin 1)), (''c'', JStr ''y'')]]"

text \<open>
  Two rows that differ in both group columns and share the joined key \<^verbatim>\<open>x|y|z\<close>.
\<close>

definition collision_rows :: "row list" where
  "collision_rows =
     [[(''a'', JStr ''x|y''), (''b'', JStr ''z'')], [(''a'', JStr ''x''), (''b'', JStr ''y|z'')]]"

text \<open>One row whose group column carries the name of the sum of \<^verbatim>\<open>v\<close>.\<close>

definition clash_rows :: "row list" where
  "clash_rows = [[(''v_sum'', JStr ''a''), (''v'', JNum (Fin 1))]]"

text \<open>One row grouped by a number and by \<^verbatim>\<open>null\<close>.\<close>

definition scalar_rows :: "row list" where
  "scalar_rows = [[(''g'', JNum (Fin 1)), (''h'', JNull), (''v'', JNum (Fin 2))]]"

text \<open>
  An evaluator for the computed-field scenario: it knows unsigned decimal numerals and
  throws on every other text. The dataset has a number and a word in column \<^verbatim>\<open>a\<close>; the
  fields are \<^verbatim>\<open>b = a\<close> and \<^verbatim>\<open>c = 7\<close>.
\<close>

definition numeral_eval :: "string \<Rightarrow> jsval option" where
  "numeral_eval s =
     (if s \<noteq> [] \<and> list_all is_digit s then Some (JNum (Fin (of_int (digits_val s)))) else None)"

definition computed_rows :: "row list" where
  "computed_rows = [[(''a'', JNum (Fin 2))], [(''a'', JStr ''x'')]]"

definition computed_fields :: "ComputedField list" where
  "computed_fields =
     [\<lparr>cf_name = ''b'', cf_expression = ''a'', cf_type = Numeric\<rparr>,
      \<lparr>cf_name = ''c'', cf_expression = ''7'', cf_type = Numeric\<rparr>]"



section \<open>Notions of the specification\<close>

text \<open>
  The combination of group-column values of a row, a group value that is a string free of
  the separator, and the name of the column an aggregation writes.
\<close>

definition group_values :: "string list \<Rightarrow> row \<Rightarrow> jsval list" where
  "group_values groupColumns row = map (\<lambda>col. get row col) groupColumns"

definition plain_text :: "jsval \<Rightarrow> bool" where
  "plain_text v = (case v of JStr s \<Rightarrow> CHR ''|'' \<notin> set s | _ \<Rightarrow> False)"

definition aggregation_name :: "Aggregation \<Rightarrow> string" where
  "aggregation_name agg =
     ag_column agg @
     (case ag_function agg of
        AggSum \<Rightarrow> ''_sum'' | AggAvg \<Rightarrow> ''_avg'' | AggCount \<Rightarrow> ''_count''
      | AggMin \<Rightarrow> ''_min'' | AggMax \<Rightarrow> ''_max'')"






section \<open>Properties of schema analysis\<close>

text \<open>
  C3, as stated: given an empty dataset the entry point signals an error. It does not: the
  guard at the head of \<^verbatim>\<open>analyzeData\<close> returns the empty sequence.
\<close>

theorem analyzeData_empty_no_error:
  "analyzeData (Rows []) = Inr [] \<and> analyzeData (Rows []) \<noteq> Inl TypeError"
  by simp

text \<open>
  C3, amended: on an empty array and on a falsy scalar (\<^verbatim>\<open>null\<close>, \<^verbatim>\<open>undefined\<close>, zero,
  the empty string, \<^verbatim>\<open>false\<close>) \<^verbatim>\<open>analyzeData\<close> returns the empty sequence and no error; it
  throws exactly on the other scalars; an array of rows is never rejected, and a non-empty
  one yields one column per key of its first row.
\<close>

theorem analyzeData_input_shape:
  "analyzeData (Rows []) = Inr [] \<and>
   (\<not> truthy v \<longrightarrow> analyzeData (NonArray v) = Inr []) \<and>
   (truthy v \<longrightarrow> analyzeData (NonArray v) = Inl TypeError) \<and>
   (\<exists>cols. analyzeData (Rows rs) = Inr cols \<and>
            (rs \<noteq> [] \<longrightarrow> map ci_name cols = Object_keys (hd rs)))"
  by (cases rs) (simp_all add: comp_def Let_def)

theorem analyzeData_input_shape_witness:
  "analyzeData (NonArray JNull) = Inr [] \<and>
   analyzeData (NonArray (JNum (Fin 5))) = Inl TypeError \<and>
   (\<exists>cols. analyzeData (Rows [[(''a'', JNull)]]) = Inr cols \<and> map ci_name cols = [''a''])"
  using analyzeData_input_shape [of JNull "[[(''a'', JNull)]]"]
        analyzeData_input_shape [of "JNum (Fin 5)" "[]"]
  by (simp add: Object_keys_def)

section \<open>Properties of type inference\<close>

lemma matches_repeat_Digit:
  "matches (repeat_regex n Digit) s =
     (if n \<le> length s \<and> list_all is_digit (take n s) then [drop n s] else [])"
proof (induction n arbitrary: s)
  case 0
  show ?case by simp
next
  case (Suc n)
  show ?case
    by (cases s) (auto simp add: Suc)
qed

lemma matches_Lit: "matches (Lit a) s = (if s \<noteq> [] \<and> hd s = a then [tl s] else [])"
  by (cases s) simp_all

lemma tl_drop_Suc: "tl (drop n s) = drop (Suc n) s"
  by (simp add: drop_Suc drop_tl)

text \<open>The pattern of the source accepts exactly the strings the specification describes.\<close>

lemma regex_date_iff: "regex_test datePattern s = is_iso_date s"
proof (cases "length s = 10")
  case True
  then show ?thesis
    unfolding datePattern_def regex_test_def is_iso_date_def
    by (auto simp add: matches_repeat_Digit matches_Lit tl_drop_Suc hd_drop_conv_nth)
next
  case False
  then show ?thesis
    unfolding datePattern_def regex_test_def is_iso_date_def
    by (auto simp add: matches_repeat_Digit matches_Lit tl_drop_Suc hd_drop_conv_nth
          split: if_splits)
qed

lemma finite_check:
  "(let num = Number v in \<not> isNaN num \<and> isFinite num) = converts_to_finite v"
  by (cases "Number v") (simp_all add: converts_to_finite_def)

text \<open>
  C5: \<^verbatim>\<open>detectColumnType\<close> computes the type inference of the specification: empty entries
  dropped, then categorical on nothing, date when every value is of the form YYYY-MM-DD,
  numeric when every value converts to a finite number, categorical otherwise, the date
  test before the numeric one.
\<close>

theorem detectColumnType_refines_spec: "detectColumnType vals = inferType_spec vals"
proof -
  have f: "(\<lambda>v. v \<noteq> JNull \<and> v \<noteq> JUndefined \<and> v \<noteq> JStr '''') = (\<lambda>v. \<not> is_empty_entry v)"
    by (auto simp add: is_empty_entry_def)
  show ?thesis
    unfolding detectColumnType_def inferType_spec_def f regex_date_iff finite_check
    by simp
qed

section \<open>Properties of the statistics\<close>

lemma sqrt_156816: "sqrt 156816 = 396"
  by (rule real_sqrt_unique) simp_all

text \<open>
  In the outlier scenario the mean is 208 and the standard deviation 396, so the row with
  1000 lies exactly two deviations from the mean and the others half a deviation.
\<close>

lemma outlier_rows_threshold:
  "findOutliers outlier_rows ''v'' (Fin t) =
     (if t < 1 / 2 then outlier_rows else if t < 2 then [[(''v'', JNum (Fin 1000))]] else [])"
  by (simp add: findOutliers_def outlier_rows_def get_def num_sum_def num_sub_def num_eq_def
        num_gt_def sqrt_156816 Let_def)

text \<open>
  C2, as stated: with threshold 3 the scenario returns exactly the row with 1000. It returns
  no row.
\<close>

theorem outlier_scenario_returns_nothing:
  "findOutliers outlier_rows ''v'' (Fin 3) = [] \<and>
   findOutliers outlier_rows ''v'' (Fin 3) \<noteq> [[(''v'', JNum (Fin 1000))]]"
  by (simp add: outlier_rows_threshold)

text \<open>
  C2, amended: with threshold 3 the scenario returns no row, and it returns exactly the row
  with 1000 for every threshold from one half up to, and not including, 2.
\<close>

theorem findOutliers_scenario:
  "findOutliers outlier_rows ''v'' (Fin 3) = [] \<and>
   (1 / 2 \<le> t \<and> t < 2 \<longrightarrow> findOutliers outlier_rows ''v'' (Fin t) = [[(''v'', JNum (Fin 1000))]])"
  by (simp add: outlier_rows_threshold)

theorem findOutliers_scenario_witness:
  "(1 / 2 \<le> (1::real) \<and> (1::real) < 2) \<and>
   findOutliers outlier_rows ''v'' (Fin 1) = [[(''v'', JNum (Fin 1000))]]"
  using findOutliers_scenario [of 1] by simp

section \<open>Properties of the insights\<close>

lemma analyzeData_dominant_rows:
  "analyzeData (Rows dominant_rows) =
     Inr [\<lparr>ci_name = ''c'', ci_type = Categorical,
           ci_values = [JStr ''X'', JStr ''A'', JStr ''B'', JStr ''C'', JStr ''D'', JStr ''E'']\<rparr>]"
  by code_simp

lemma categorical_dominant_rows:
  "categorical_insights dominant_rows
     [\<lparr>ci_name = ''c'', ci_type = Categorical,
       ci_values = [JStr ''X'', JStr ''A'', JStr ''B'', JStr ''C'', JStr ''D'', JStr ''E'']\<rparr>] = []"
  by code_simp

text \<open>
  C1: in the dominant-category scenario a categorical insight names \<^verbatim>\<open>"X"\<close>. The engine
  counts over the list of distinct values, where \<^verbatim>\<open>"X"\<close> occurs once, and returns no
  insight at all.
\<close>

theorem generateInsights_dominant_rows: "generateInsights dominant_rows = Inr []"
  by (simp add: generateInsights_def analyzeData_dominant_rows categorical_dominant_rows
        correlation_insights_def outlier_insights_def array_sort_def)

text \<open>
  The comparator \<^verbatim>\<open>(a, b) => b.confidence - a.confidence\<close> orders its arguments
  consistently as long as no confidence is not-a-number or minus infinity; the sort then
  returns a list that descends in confidence.
\<close>

lemma set_insert_by: "set (insert_by cmp x ys) = insert x (set ys)"
  by (induction ys) auto

lemma cmp_not_positive:
  "a \<noteq> NaN \<Longrightarrow> a \<noteq> NInf \<Longrightarrow> b \<noteq> NaN \<Longrightarrow> b \<noteq> NInf \<Longrightarrow>
   \<not> num_gt (num_sub b a) (Fin 0) \<Longrightarrow> num_ge a b"
  by (cases a; cases b) (simp_all add: num_gt_def num_sub_def num_ge_def num_le_def)

lemma cmp_positive:
  "a \<noteq> NaN \<Longrightarrow> a \<noteq> NInf \<Longrightarrow> b \<noteq> NaN \<Longrightarrow> b \<noteq> NInf \<Longrightarrow>
   num_gt (num_sub b a) (Fin 0) \<Longrightarrow> num_ge b a"
  by (cases a; cases b) (simp_all add: num_gt_def num_sub_def num_ge_def num_le_def)

lemma num_ge_trans: "num_ge a b \<Longrightarrow> num_ge b c \<Longrightarrow> num_ge a c"
  by (cases a; cases b; cases c) (simp_all add: num_ge_def num_le_def)

lemma sorted_insert_by:
  assumes "sorted_wrt (\<lambda>a b. num_ge (di_confidence a) (di_confidence b)) ys"
    and "\<forall>i \<in> insert x (set ys). di_confidence i \<noteq> NaN \<and> di_confidence i \<noteq> NInf"
  shows "sorted_wrt (\<lambda>a b. num_ge (di_confidence a) (di_confidence b))
           (insert_by (\<lambda>a b. num_sub (di_confidence b) (di_confidence a)) x ys)"
  using assms
proof (induction ys)
  case Nil
  then show ?case by simp
next
  case (Cons y ys)
  show ?case
  proof (cases "num_gt (num_sub (di_confidence y) (di_confidence x)) (Fin 0)")
    case True
    have yx: "num_ge (di_confidence y) (di_confidence x)"
      using Cons.prems(2) True by (intro cmp_positive) simp_all
    have "sorted_wrt (\<lambda>a b. num_ge (di_confidence a) (di_confidence b))
           (insert_by (\<lambda>a b. num_sub (di_confidence b) (di_confidence a)) x ys)"
      using Cons.IH Cons.prems by simp
    then show ?thesis
      using True yx Cons.prems(1) by (simp add: set_insert_by)
  next
    case False
    have xy: "num_ge (di_confidence x) (di_confidence y)"
      using Cons.prems(2) False by (intro cmp_not_positive) simp_all
    have "\<forall>z \<in> set ys. num_ge (di_confidence x) (di_confidence z)"
      using xy Cons.prems(1) by (auto intro: num_ge_trans)
    then show ?thesis
      using False xy Cons.prems(1) by simp
  qed
qed

lemma set_array_sort: "set (array_sort cmp xs) = set xs"
  by (induction xs) (simp_all add: array_sort_def set_insert_by)

lemma sorted_array_sort:
  assumes "\<forall>i \<in> set xs. di_confidence i \<noteq> NaN \<and> di_confidence i \<noteq> NInf"
  shows "sorted_wrt (\<lambda>a b. num_ge (di_confidence a) (di_confidence b))
           (array_sort (\<lambda>a b. num_sub (di_confidence b) (di_confidence a)) xs)"
  using assms
proof (induction xs)
  case Nil
  then show ?case by (simp add: array_sort_def)
next
  case (Cons x xs)
  have "sorted_wrt (\<lambda>a b. num_ge (di_confidence a) (di_confidence b))
           (array_sort (\<lambda>a b. num_sub (di_confidence b) (di_confidence a)) xs)"
    using Cons by simp
  moreover have "\<forall>i \<in> insert x (set (array_sort (\<lambda>a b. num_sub (di_confidence b) (di_confidence a)) xs)).
      di_confidence i \<noteq> NaN \<and> di_confidence i \<noteq> NInf"
    using Cons.prems by (simp add: set_array_sort)
  ultimately show ?case
    using sorted_insert_by [of "array_sort (\<lambda>a b. num_sub (di_confidence b) (di_confidence a)) xs" x]
    by (simp add: array_sort_def)
qed

lemma abs_above_half: "num_gt (math_abs c) (Fin (1 / 2)) \<Longrightarrow> math_abs c \<noteq> NaN \<and> math_abs c \<noteq> NInf"
  by (cases c) (simp_all add: num_gt_def)

lemma correlation_confidence:
  "i \<in> set (correlation_insights data cols) \<Longrightarrow> di_confidence i \<noteq> NaN \<and> di_confidence i \<noteq> NInf"
  using abs_above_half
  by (auto simp add: correlation_insights_def Let_def split: if_splits)

lemma outlier_confidence:
  "i \<in> set (outlier_insights data cols) \<Longrightarrow> di_confidence i = Fin 0.8"
  by (auto simp add: outlier_insights_def Let_def split: if_splits)

lemma categorical_confidence:
  "i \<in> set (categorical_insights data cols) \<Longrightarrow> di_confidence i = Fin 0.7"
  by (auto simp add: categorical_insights_def Let_def split: if_splits option.splits)

lemma analyzeData_Rows: "\<exists>cols. analyzeData (Rows data) = Inr cols"
  by (cases data) simp_all

text \<open>
  C7: for every dataset \<^verbatim>\<open>generateInsights\<close> returns a list of at most five insights, and
  each of them has a confidence greater than or equal to that of the next.
\<close>

theorem generateInsights_capped_sorted:
  "\<exists>res. generateInsights data = Inr res \<and> length res \<le> 5 \<and>
     (\<forall>i. Suc i < length res \<longrightarrow>
        num_ge (di_confidence (res ! i)) (di_confidence (res ! Suc i)))"
proof -
  obtain cols where cols: "analyzeData (Rows data) = Inr cols"
    using analyzeData_Rows by blast
  define insights where "insights =
     correlation_insights data (filter (\<lambda>col. ci_type col = Numeric) cols) @
     outlier_insights data (filter (\<lambda>col. ci_type col = Numeric) cols) @
     categorical_insights data (filter (\<lambda>col. ci_type col = Categorical) cols)"
  define res where
    "res = take 5 (array_sort (\<lambda>a b. num_sub (di_confidence b) (di_confidence a)) insights)"
  have gen: "generateInsights data = Inr res"
    by (simp add: generateInsights_def cols res_def insights_def Let_def)
  have "\<forall>i \<in> set insights. di_confidence i \<noteq> NaN \<and> di_confidence i \<noteq> NInf"
    using correlation_confidence outlier_confidence categorical_confidence
    by (fastforce simp add: insights_def)
  then have "sorted_wrt (\<lambda>a b. num_ge (di_confidence a) (di_confidence b)) res"
    unfolding res_def by (intro sorted_wrt_take sorted_array_sort)
  then have "\<forall>i. Suc i < length res \<longrightarrow>
        num_ge (di_confidence (res ! i)) (di_confidence (res ! Suc i))"
    by (simp add: sorted_wrt_iff_nth_less)
  moreover have "length res \<le> 5"
    by (simp add: res_def)
  ultimately show ?thesis
    using gen by blast
qed

lemma analyzeData_ranked_rows:
  "analyzeData (Rows ranked_rows) =
     Inr [\<lparr>ci_name = ''a'', ci_type = Numeric, ci_values = [JNum (Fin 0), JNum (Fin 2)]\<rparr>,
          \<lparr>ci_name = ''b'', ci_type = Numeric,
            ci_values = [JNum (Fin 0), JNum (Fin 1), JNum (Fin 4)]\<rparr>,
          \<lparr>ci_name = ''c'', ci_type = Categorical,
            ci_values = [JBool True, JStr ''true'', JStr ''x'', JStr ''y'']\<rparr>]"
  by code_simp

lemma categorical_ranked_rows:
  "categorical_insights ranked_rows
     [\<lparr>ci_name = ''c'', ci_type = Categorical,
       ci_values = [JBool True, JStr ''true'', JStr ''x'', JStr ''y'']\<rparr>] =
   [\<lparr>di_title = ''Dominant category in c'',
      di_description = ''true represents 50.0% of all c values'',
      di_confidence = Fin 0.7, di_type = CategoricalInsight\<rparr>]"
  by code_simp

lemma sqrt_576: "sqrt 576 = 24"
  by (rule real_sqrt_unique) simp_all

lemma sqrt_9_4: "sqrt (9 / 4) = 3 / 2"
  by (rule real_sqrt_unique) (simp_all add: power2_eq_square)

lemma correlation_ranked_rows: "calculateCorrelation ranked_rows ''a'' ''b'' = Fin (2 / 3)"
  by (simp add: calculateCorrelation_def ranked_rows_def get_def num_sub_def num_eq_def sqrt_576)

lemma outliers_ranked_rows:
  "findOutliers ranked_rows ''a'' (Fin 3) = []" "findOutliers ranked_rows ''b'' (Fin 3) = []"
  by (simp_all add: findOutliers_def ranked_rows_def get_def num_sub_def num_eq_def num_sum_def
        num_gt_def sqrt_9_4 power2_eq_square)

lemma fixed_two_thirds: "fixed_pos 2 (2 / 3) = ''0.67''"
  by code_simp

text \<open>
  In the four-row scenario the correlation pass finds 0.67 and the categorical pass, coming
  later, 0.7: the sort puts the categorical insight first.
\<close>

lemma generateInsights_ranked_rows:
  "generateInsights ranked_rows =
   Inr [\<lparr>di_title = ''Dominant category in c'',
          di_description = ''true represents 50.0% of all c values'',
          di_confidence = Fin 0.7, di_type = CategoricalInsight\<rparr>,
        \<lparr>di_title = ''Strong positive correlation found'',
          di_description = ''a and b show a positive correlation (r '' @
            [CHR 0xC3, CHR 0xA2, CHR 0xE2, CHR 0x80, CHR 0xB0, CHR 0xCB, CHR 0x86] @ '' 0.67)'',
          di_confidence = Fin (2 / 3), di_type = Correlation\<rparr>]"
  by (simp add: generateInsights_def analyzeData_ranked_rows categorical_ranked_rows
        correlation_insights_def outlier_insights_def correlation_ranked_rows outliers_ranked_rows
        fixed_two_thirds array_sort_def num_sub_def num_gt_def)

theorem generateInsights_capped_sorted_witness:
  "\<exists>res. generateInsights ranked_rows = Inr res \<and> length res \<le> 5 \<and> Suc 0 < length res \<and>
     di_type (res ! 0) = CategoricalInsight \<and> di_type (res ! Suc 0) = Correlation \<and>
     num_ge (di_confidence (res ! 0)) (di_confidence (res ! Suc 0))"
proof -
  obtain res where res: "generateInsights ranked_rows = Inr res" "length res \<le> 5"
      "\<forall>i. Suc i < length res \<longrightarrow> num_ge (di_confidence (res ! i)) (di_confidence (res ! Suc i))"
    using generateInsights_capped_sorted [of ranked_rows] by blast
  have shape: "Suc 0 < length res \<and> di_type (res ! 0) = CategoricalInsight \<and>
      di_type (res ! Suc 0) = Correlation"
    using res(1) by (auto simp add: generateInsights_ranked_rows)
  then have "num_ge (di_confidence (res ! 0)) (di_confidence (res ! Suc 0))"
    using res(3) by blast
  then show ?thesis
    using res(1,2) shape by blast
qed

section \<open>Properties of the filters\<close>

lemma filter_throwing_all: "filter_throwing (\<lambda>row. Inr True) data = Inr data"
  by (induction data) simp_all

lemma every_skip_disabled:
  "\<not> fr_enabled rule \<Longrightarrow>
   every (rule_passes row) (before @ rule # after) = every (rule_passes row) (before @ after)"
  by (induction before) (simp_all add: rule_passes_def split: sum.splits)

text \<open>
  C8: with no rule \<^verbatim>\<open>applyFilters\<close> returns the dataset as it is, and a disabled rule put
  anywhere into a list of rules changes nothing of the outcome, so it excludes no row.
\<close>

theorem applyFilters_identity_and_disabled:
  "applyFilters data [] = Inr data \<and>
   (\<not> fr_enabled rule \<longrightarrow>
      applyFilters data (before @ rule # after) = applyFilters data (before @ after))"
  by (simp add: applyFilters_def filter_throwing_all every_skip_disabled)

theorem applyFilters_identity_and_disabled_witness:
  "\<not> fr_enabled \<lparr>fr_column = ''c'', fr_operator = Equals, fr_value = Scalar (JStr ''Z''),
                   fr_enabled = False\<rparr> \<and>
   applyFilters tie_rows
     [\<lparr>fr_column = ''c'', fr_operator = Equals, fr_value = Scalar (JStr ''Z''),
       fr_enabled = False\<rparr>] = Inr tie_rows"
  using applyFilters_identity_and_disabled
    [of tie_rows "\<lparr>fr_column = ''c'', fr_operator = Equals, fr_value = Scalar (JStr ''Z''),
                   fr_enabled = False\<rparr>" "[]" "[]"]
  by simp

section \<open>Properties of grouping\<close>

text \<open>
  The groups carry pairwise distinct keys, and their keys are the keys of the rows.
\<close>

lemma map_fst_push_group:
  "map fst (push_group key row groups) =
     (if key \<in> set (map fst groups) then map fst groups else map fst groups @ [key])"
  by (auto simp add: push_group_def Let_def case_prod_unfold comp_def)

lemma group_rows_snoc:
  "group_rows (data @ [row]) groupColumns =
     push_group (group_key groupColumns row) row (group_rows data groupColumns)"
  by (simp add: group_rows_def)

lemma group_rows_keys:
  "distinct (map fst (group_rows data groupColumns)) \<and>
   set (map fst (group_rows data groupColumns)) = group_key groupColumns ` set data"
proof (induction data rule: rev_induct)
  case Nil
  show ?case by (simp add: group_rows_def)
next
  case (snoc row data)
  then show ?case
    by (auto simp add: group_rows_snoc map_fst_push_group)
qed

lemma length_groupAndAggregate:
  "length (groupAndAggregate data groupColumns aggregations) =
     card (group_key groupColumns ` set data)"
proof -
  have "length (groupAndAggregate data groupColumns aggregations) =
        length (map fst (group_rows data groupColumns))"
    by (simp add: groupAndAggregate_def)
  also have "\<dots> = card (set (map fst (group_rows data groupColumns)))"
    using group_rows_keys [of data groupColumns] distinct_card by metis
  also have "\<dots> = card (group_key groupColumns ` set data)"
    using group_rows_keys [of data groupColumns] by metis
  finally show ?thesis .
qed

text \<open>
  Joining strings that are free of the separator loses nothing: splitting gives them back.
\<close>

lemma split_on_free: "c \<notin> set s \<Longrightarrow> split_on c s = [s]"
  by (induction s) auto

lemma split_on_append: "c \<notin> set s \<Longrightarrow> split_on c (s @ c # rest) = s # split_on c rest"
  by (induction s) auto

lemma split_join:
  "ss \<noteq> [] \<Longrightarrow> \<forall>s \<in> set ss. c \<notin> set s \<Longrightarrow> split_on c (join_strings [c] ss) = ss"
proof (induction "[c]" ss rule: join_strings.induct)
  case 1
  then show ?case by simp
next
  case (2 s)
  then show ?case by (simp add: split_on_free)
next
  case (3 s t ss)
  then show ?case by (simp add: split_on_append)
qed

lemma join_strings_inj:
  assumes "length ss = length ts" "\<forall>s \<in> set ss. c \<notin> set s" "\<forall>s \<in> set ts. c \<notin> set s"
    and "join_strings [c] ss = join_strings [c] ts"
  shows "ss = ts"
proof (cases "ss = []")
  case True
  then show ?thesis using assms(1) by simp
next
  case False
  then have ts: "ts \<noteq> []" using assms(1) by auto
  have "ss = split_on c (join_strings [c] ss)"
    by (rule split_join [OF False assms(2), symmetric])
  also have "\<dots> = split_on c (join_strings [c] ts)"
    by (simp only: assms(4))
  also have "\<dots> = ts"
    by (rule split_join [OF ts assms(3)])
  finally show ?thesis .
qed

lemma plain_text_join: "plain_text v \<Longrightarrow> JStr (join_text v) = v \<and> CHR ''|'' \<notin> set (join_text v)"
  by (cases v) (simp_all add: plain_text_def join_text_def)

lemma plain_text_map: "\<forall>v \<in> set vs. plain_text v \<Longrightarrow> map JStr (map join_text vs) = vs"
  by (induction vs) (simp_all add: plain_text_join)

lemma plain_text_free:
  "\<forall>v \<in> set vs. plain_text v \<Longrightarrow> \<forall>s \<in> set (map join_text vs). CHR ''|'' \<notin> set s"
  by (simp add: plain_text_join)

lemma array_join_inj:
  assumes "length vs = length ws" "\<forall>v \<in> set vs. plain_text v" "\<forall>v \<in> set ws. plain_text v"
    and "array_join ''|'' vs = array_join ''|'' ws"
  shows "vs = ws"
proof -
  have "join_strings [CHR ''|''] (map join_text vs) = join_strings [CHR ''|''] (map join_text ws)"
    using assms(4) by (simp add: array_join_def)
  moreover have "length (map join_text vs) = length (map join_text ws)"
    using assms(1) by simp
  ultimately have "map join_text vs = map join_text ws"
    using plain_text_free [OF assms(2)] plain_text_free [OF assms(3)]
    by (rule join_strings_inj [rotated 3])
  then have "map JStr (map join_text vs) = map JStr (map join_text ws)"
    by simp
  then show ?thesis
    using plain_text_map [OF assms(2)] plain_text_map [OF assms(3)] by simp
qed

text \<open>
  C4, amended: the number of rows \<^verbatim>\<open>groupAndAggregate\<close> returns is the number of distinct
  group keys (the joined strings) in the dataset; it is the number of distinct combinations
  of group-column values when every group-column value is a string without the separator.
\<close>

theorem groupAndAggregate_row_count:
  "length (groupAndAggregate data groupColumns aggregations) =
     card (group_key groupColumns ` set data) \<and>
   ((\<forall>row \<in> set data. \<forall>col \<in> set groupColumns. plain_text (get row col)) \<longrightarrow>
      length (groupAndAggregate data groupColumns aggregations) =
        card (group_values groupColumns ` set data))"
proof -
  have "card (group_key groupColumns ` set data) = card (group_values groupColumns ` set data)"
    if plain: "\<forall>row \<in> set data. \<forall>col \<in> set groupColumns. plain_text (get row col)"
  proof -
    have "inj_on (array_join ''|'') (group_values groupColumns ` set data)"
    proof (rule inj_onI)
      fix vs ws
      assume "vs \<in> group_values groupColumns ` set data" "ws \<in> group_values groupColumns ` set data"
        and eq: "array_join ''|'' vs = array_join ''|'' ws"
      then obtain r1 r2 where r: "r1 \<in> set data" "r2 \<in> set data"
          "vs = group_values groupColumns r1" "ws = group_values groupColumns r2"
        by blast
      have "length vs = length ws"
        using r by (simp add: group_values_def)
      moreover have "\<forall>v \<in> set vs. plain_text v"
        using r plain by (simp add: group_values_def)
      moreover have "\<forall>v \<in> set ws. plain_text v"
        using r plain by (simp add: group_values_def)
      ultimately show "vs = ws"
        using eq by (rule array_join_inj)
    qed
    moreover have "group_key groupColumns ` set data =
        array_join ''|'' ` (group_values groupColumns ` set data)"
      by (auto simp add: group_key_def group_values_def)
    ultimately show ?thesis
      by (simp add: card_image)
  qed
  then show ?thesis
    by (simp add: length_groupAndAggregate)
qed

lemma collision_output:
  "groupAndAggregate collision_rows [''a'', ''b''] [] = [[(''a'', JStr ''x''), (''b'', JStr ''y'')]]"
  by code_simp

text \<open>
  C4, as stated: the number of rows returned is the number of distinct combinations of
  group-column values. Two rows with different combinations and one joined key make one
  output row.
\<close>

theorem groupAndAggregate_collision:
  "length (groupAndAggregate collision_rows [''a'', ''b''] []) = 1 \<and>
   card (group_values [''a'', ''b''] ` set collision_rows) = 2 \<and>
   length (groupAndAggregate collision_rows [''a'', ''b''] []) \<noteq>
     card (group_values [''a'', ''b''] ` set collision_rows)"
  by (simp add: collision_output) (simp add: collision_rows_def group_values_def get_def)

theorem groupAndAggregate_row_count_witness:
  "list_all (\<lambda>row. list_all (\<lambda>col. plain_text (get row col)) [''c'', ''d'']) tie_rows \<and>
   length (groupAndAggregate tie_rows [''c'', ''d''] []) = card (group_values [''c'', ''d''] ` set tie_rows) \<and>
   card (group_values [''c'', ''d''] ` set tie_rows) = 2"
proof -
  have plain: "\<forall>row \<in> set tie_rows. \<forall>col \<in> set [''c'', ''d'']. plain_text (get row col)"
    by (simp add: tie_rows_def get_def plain_text_def)
  have "card (group_values [''c'', ''d''] ` set tie_rows) = 2"
    by (simp add: tie_rows_def group_values_def get_def)
  moreover have "length (groupAndAggregate tie_rows [''c'', ''d''] []) =
      card (group_values [''c'', ''d''] ` set tie_rows)"
    using plain groupAndAggregate_row_count [of tie_rows "[''c'', ''d'']" "[]"] by blast
  ultimately show ?thesis
    using plain by (simp add: list_all_iff)
qed

text \<open>Reading a property after an assignment.\<close>

lemma map_of_obj_insert:
  "k \<notin> fst ` set ps \<Longrightarrow> map_of (obj_insert k v ps) = (map_of ps)(k \<mapsto> v)"
proof (induction ps)
  case Nil
  show ?case by simp
next
  case (Cons p ps)
  obtain k' v' where p: "p = (k', v')" by (cases p)
  have ne: "k \<noteq> k'" and notin: "k \<notin> fst ` set ps"
    using Cons.prems p by auto
  show ?case
    using Cons.IH [OF notin] ne by (auto simp add: p fun_upd_twist)
qed

lemma get_obj_set: "get (obj_set k v ps) k' = (if k' = k then v else get ps k')"
  by (simp add: get_def obj_set_def map_of_obj_insert update_conv')

lemma get_add_aggregation:
  "col \<noteq> aggregation_name agg \<Longrightarrow> get (add_aggregation rows result agg) col = get result col"
  by (cases "ag_function agg") (simp_all add: add_aggregation_def aggregation_name_def get_obj_set Let_def)

lemma get_add_aggregations:
  "col \<notin> aggregation_name ` set aggs \<Longrightarrow>
   get (foldl (add_aggregation rows) result aggs) col = get result col"
  by (induction aggs arbitrary: result) (simp_all add: get_add_aggregation)

lemma zip_index_snoc:
  "zip (cs @ [c]) [0..<length (cs @ [c])] = zip cs [0..<length cs] @ [(c, length cs)]"
  by simp

lemma get_add_group_columns:
  "col \<in> set cs \<Longrightarrow>
   \<exists>i < length cs. cs ! i = col \<and> get (add_group_columns key cs) col = key_piece key i"
proof (induction cs rule: rev_induct)
  case Nil
  then show ?case by simp
next
  case (snoc c cs)
  have step: "add_group_columns key (cs @ [c]) =
      obj_set c (key_piece key (length cs)) (add_group_columns key cs)"
    by (simp add: add_group_columns_def)
  show ?case
  proof (cases "col = c")
    case True
    then have "length cs < length (cs @ [c]) \<and> (cs @ [c]) ! length cs = col \<and>
        get (add_group_columns key (cs @ [c])) col = key_piece key (length cs)"
      by (simp add: step get_obj_set)
    then show ?thesis by blast
  next
    case False
    then obtain i where i: "i < length cs" "cs ! i = col"
        "get (add_group_columns key cs) col = key_piece key i"
      using snoc by auto
    then have "i < length (cs @ [c]) \<and> (cs @ [c]) ! i = col \<and>
        get (add_group_columns key (cs @ [c])) col = key_piece key i"
      using False by (simp add: step get_obj_set nth_append)
    then show ?thesis by blast
  qed
qed

lemma split_on_nonempty: "split_on c s \<noteq> []"
  by (induction s) (auto split: list.splits)

lemma length_split_on_append:
  "length (split_on c (s @ c # rest)) = length (split_on c s) + length (split_on c rest)"
  by (induction s) (auto split: list.splits simp add: split_on_nonempty)

lemma length_split_join:
  "ss \<noteq> [] \<Longrightarrow> length ss \<le> length (split_on c (join_strings [c] ss))"
proof (induction "[c]" ss rule: join_strings.induct)
  case 1
  then show ?case by simp
next
  case (2 s)
  then show ?case
    using split_on_nonempty [of c s] by (cases "split_on c s") simp_all
next
  case (3 s t ss)
  have "1 \<le> length (split_on c s)"
    using split_on_nonempty [of c s] by (cases "split_on c s") simp_all
  then show ?case
    using 3 by (simp add: length_split_on_append)
qed

lemma key_piece_string:
  "r \<in> set data \<Longrightarrow> i < length groupColumns \<Longrightarrow>
   \<exists>s. key_piece (group_key groupColumns r) i = JStr s"
proof -
  assume i: "i < length groupColumns"
  then have "map join_text (map (\<lambda>col. get r col) groupColumns) \<noteq> []"
    by auto
  then have "length (map join_text (map (\<lambda>col. get r col) groupColumns))
      \<le> length (split_on CHR ''|'' (group_key groupColumns r))"
    unfolding group_key_def array_join_def by (rule length_split_join)
  then show ?thesis
    using i by (simp add: key_piece_def)
qed

lemma key_piece_text:
  assumes "i < length groupColumns"
    and "\<forall>c \<in> set groupColumns. CHR ''|'' \<notin> set (join_text (get r c))"
  shows "key_piece (group_key groupColumns r) i = JStr (join_text (get r (groupColumns ! i)))"
proof -
  have ne: "map join_text (map (\<lambda>col. get r col) groupColumns) \<noteq> []"
    using assms(1) by auto
  have free: "\<forall>s \<in> set (map join_text (map (\<lambda>col. get r col) groupColumns)). CHR ''|'' \<notin> set s"
    using assms(2) by simp
  have "split_on CHR ''|'' (group_key groupColumns r) =
      map join_text (map (\<lambda>col. get r col) groupColumns)"
    unfolding group_key_def array_join_def by (rule split_join [OF ne free])
  then show ?thesis
    using assms(1) by (simp add: key_piece_def)
qed

text \<open>
  C10, amended: in the output row of a group, a group column whose name no aggregation
  writes holds a string, the piece of the group's joined key at a position of that column;
  when no group value's text contains the separator, the piece is the text of the value in
  every row of the group: a number or a boolean as \<^verbatim>\<open>String\<close> prints it, \<^verbatim>\<open>null\<close> and
  \<^verbatim>\<open>undefined\<close> as the empty string.
\<close>

theorem groupAndAggregate_group_columns:
  assumes "k < length (groupAndAggregate data groupColumns aggregations)"
    and "col \<in> set groupColumns"
    and "col \<notin> aggregation_name ` set aggregations"
  shows "fst (group_rows data groupColumns ! k) \<in> group_key groupColumns ` set data \<and>
    (\<exists>i < length groupColumns. groupColumns ! i = col \<and>
       get (groupAndAggregate data groupColumns aggregations ! k) col =
         key_piece (fst (group_rows data groupColumns ! k)) i) \<and>
    (\<exists>s. get (groupAndAggregate data groupColumns aggregations ! k) col = JStr s) \<and>
    ((\<forall>r \<in> set data. \<forall>c \<in> set groupColumns. CHR ''|'' \<notin> set (join_text (get r c))) \<longrightarrow>
       (\<forall>r \<in> set data. group_key groupColumns r = fst (group_rows data groupColumns ! k) \<longrightarrow>
          get (groupAndAggregate data groupColumns aggregations ! k) col =
            JStr (join_text (get r col))))"
proof -
  define key where "key = fst (group_rows data groupColumns ! k)"
  define out where "out = groupAndAggregate data groupColumns aggregations ! k"
  have k: "k < length (group_rows data groupColumns)"
    using assms(1) by (simp add: groupAndAggregate_def)
  then have "key \<in> set (map fst (group_rows data groupColumns))"
    unfolding key_def by (metis length_map nth_map nth_mem)
  then have key_in: "key \<in> group_key groupColumns ` set data"
    using group_rows_keys [of data groupColumns] by simp
  have "out = foldl (add_aggregation (snd (group_rows data groupColumns ! k)))
                (add_group_columns key groupColumns) aggregations"
    using k by (simp add: out_def key_def groupAndAggregate_def case_prod_unfold)
  then have out: "get out col = get (add_group_columns key groupColumns) col"
    using assms(3) by (simp add: get_add_aggregations)
  obtain i where i: "i < length groupColumns" "groupColumns ! i = col"
      "get out col = key_piece key i"
    using get_add_group_columns [OF assms(2), of key] out by auto
  obtain r0 where r0: "r0 \<in> set data" "key = group_key groupColumns r0"
    using key_in by blast
  have str: "\<exists>s. get out col = JStr s"
    using key_piece_string [OF r0(1) i(1)] i(3) r0(2) by simp
  have piece: "get out col = JStr (join_text (get r col))"
    if "\<forall>r \<in> set data. \<forall>c \<in> set groupColumns. CHR ''|'' \<notin> set (join_text (get r c))"
      and "r \<in> set data" and "group_key groupColumns r = key" for r
    using key_piece_text [OF i(1), of r] that i by auto
  show ?thesis
    using key_in i str piece unfolding key_def [symmetric] out_def [symmetric] by blast
qed

lemma scalar_rows_groups:
  "group_rows scalar_rows [''g'', ''h''] =
     [(''1|'', [[(''g'', JNum (Fin 1)), (''h'', JNull), (''v'', JNum (Fin 2))]])]"
  by code_simp

lemma scalar_rows_key:
  "group_key [''g'', ''h''] [(''g'', JNum (Fin 1)), (''h'', JNull), (''v'', JNum (Fin 2))] = ''1|''"
  by code_simp

lemma scalar_rows_text:
  "join_text (JNum (Fin 1)) = ''1''" "join_text JNull = []"
  by code_simp+

theorem groupAndAggregate_group_columns_witness:
  "0 < length (groupAndAggregate scalar_rows [''g'', ''h''] [\<lparr>ag_column = ''v'', ag_function = AggSum\<rparr>]) \<and>
   ''g'' \<in> set [''g'', ''h''] \<and>
   ''g'' \<notin> aggregation_name ` set [\<lparr>ag_column = ''v'', ag_function = AggSum\<rparr>] \<and>
   list_all (\<lambda>r. list_all (\<lambda>c. CHR ''|'' \<notin> set (join_text (get r c))) [''g'', ''h'']) scalar_rows \<and>
   get (groupAndAggregate scalar_rows [''g'', ''h''] [\<lparr>ag_column = ''v'', ag_function = AggSum\<rparr>] ! 0) ''g''
     = JStr ''1''"
proof -
  have len: "0 < length (groupAndAggregate scalar_rows [''g'', ''h''] [\<lparr>ag_column = ''v'', ag_function = AggSum\<rparr>])"
    by (simp add: groupAndAggregate_def scalar_rows_groups)
  have col: "''g'' \<in> set [''g'', ''h'']"
    by simp
  have name: "''g'' \<notin> aggregation_name ` set [\<lparr>ag_column = ''v'', ag_function = AggSum\<rparr>]"
    by (simp add: aggregation_name_def)
  have free: "\<forall>r \<in> set scalar_rows. \<forall>c \<in> set [''g'', ''h'']. CHR ''|'' \<notin> set (join_text (get r c))"
    by (simp add: scalar_rows_def get_def scalar_rows_text)
  have row: "[(''g'', JNum (Fin 1)), (''h'', JNull), (''v'', JNum (Fin 2))] \<in> set scalar_rows"
    by (simp add: scalar_rows_def)
  have "get (groupAndAggregate scalar_rows [''g'', ''h''] [\<lparr>ag_column = ''v'', ag_function = AggSum\<rparr>] ! 0) ''g''
     = JStr (join_text (get [(''g'', JNum (Fin 1)), (''h'', JNull), (''v'', JNum (Fin 2))] ''g''))"
    using groupAndAggregate_group_columns [OF len col name] free row
    by (simp add: scalar_rows_groups scalar_rows_key)
  then show ?thesis
    using len col name free by (simp add: get_def scalar_rows_text list_all_iff)
qed

lemma clash_output:
  "groupAndAggregate clash_rows [''v_sum''] [\<lparr>ag_column = ''v'', ag_function = AggSum\<rparr>] =
     [[(''v_sum'', JNum (Fin 1))]]"
  by code_simp

text \<open>
  C10, as stated: every group column of every output row holds a string. A group column
  named like the output of an aggregation holds the aggregate, a number.
\<close>

theorem groupAndAggregate_name_clash:
  "get (groupAndAggregate clash_rows [''v_sum''] [\<lparr>ag_column = ''v'', ag_function = AggSum\<rparr>] ! 0) ''v_sum''
     = JNum (Fin 1) \<and>
   get (groupAndAggregate clash_rows [''v_sum''] [\<lparr>ag_column = ''v'', ag_function = AggSum\<rparr>] ! 0) ''v_sum''
     \<noteq> JStr ''a''"
  by (simp add: clash_output get_def)

section \<open>Properties of computed fields\<close>



lemma computed_output:
  "addComputedFields numeral_eval computed_rows computed_fields =
     [[(''a'', JNum (Fin 2)), (''b'', JNum (Fin 2)), (''c'', JNum (Fin 7))],
      [(''a'', JStr ''x''), (''b'', JNull), (''c'', JNum (Fin 7))]]"
  by code_simp



section \<open>Properties of the correlation\<close>



















end
